theory Spec2Isabelle
  imports Complex_Main "HOL-Library.Word" "HOL-Library.Sublist"
begin

section \<open>Python values and builtins the ledger relies on\<close>

text \<open>
  The ledger of the budget tracker is two Python modules: \<open>expense.py\<close> (the
  record) and \<open>budget.py\<close> (the list of records with its CSV mirror). Strings are
  HOL strings, so text is ASCII text. An amount, a Python float in the source,
  is a real number here; the ledger stores amounts, writes them and reads them
  back, and its only arithmetic on them is the sum of \<open>total\<close>. The text of
  today's date and the float that \<open>float(s)\<close> finds in a text \<open>s\<close> are fields of
  the runtime.
\<close>

text \<open>
  The exceptions: \<open>ValueError\<close> of \<open>float\<close> on a text that is no number, and the
  \<open>Error\<close> of the \<open>csv\<close> reader.
\<close>

datatype error = ValueError | CsvError

text \<open>
  An argument handed to \<open>float(...)\<close>: a float, the text \<open>str(x)\<close> that Python
  wrote for a float \<open>x\<close>, or any other text. \<open>str\<close> of a float is the shortest
  text that \<open>float\<close> converts back to it, at most 24 characters long.
\<close>

datatype num_arg = Flt real | Repr real | Txt string

record runtime =
  today :: string
  float_of_str :: "string \<Rightarrow> real option"

definition py_float :: "runtime \<Rightarrow> num_arg \<Rightarrow> error + real" where
  "py_float rt a =
     (case a of
        Flt x \<Rightarrow> Inr x
      | Repr x \<Rightarrow> Inr x
      | Txt s \<Rightarrow> (case float_of_str rt s of None \<Rightarrow> Inl ValueError | Some x \<Rightarrow> Inr x))"

text \<open>Truthiness of an optional string: \<open>None\<close> and \<open>""\<close> are false.\<close>

fun truthy :: "string option \<Rightarrow> bool" where
  "truthy None = False"
| "truthy (Some s) = (s \<noteq> [])"

text \<open>\<open>a or b\<close> on an optional string \<open>a\<close>.\<close>

fun or_else :: "string option \<Rightarrow> string \<Rightarrow> string" where
  "or_else None d = d"
| "or_else (Some s) d = (if s \<noteq> [] then s else d)"

definition lower_char :: "char \<Rightarrow> char" where
  "lower_char c =
     (let n = (of_char c :: nat) in if 65 \<le> n \<and> n \<le> 90 then char_of (n + 32) else c)"

definition lower :: "string \<Rightarrow> string" where
  "lower s = map lower_char s"

definition is_space :: "char \<Rightarrow> bool" where
  "is_space c =
     (let n = (of_char c :: nat) in (9 \<le> n \<and> n \<le> 13) \<or> (28 \<le> n \<and> n \<le> 32))"

definition strip :: "string \<Rightarrow> string" where
  "strip s = rev (dropWhile is_space (rev (dropWhile is_space s)))"

definition startswith :: "string \<Rightarrow> string \<Rightarrow> bool" where
  "startswith s p = (take (length p) s = p)"

text \<open>
  \<open>str(uuid.uuid4())[:8]\<close>: the first eight hexadecimal digits of the random
  number, that is its leading 32 bits, most significant digit first.
\<close>

definition hexdigit :: "nat \<Rightarrow> char" where
  "hexdigit n = (if n < 10 then char_of (48 + n) else char_of (87 + n))"

definition uuid8 :: "32 word \<Rightarrow> string" where
  "uuid8 w = map (\<lambda>i. hexdigit (unat w div 16 ^ i mod 16)) [7, 6, 5, 4, 3, 2, 1, 0]"

section \<open>expense.py\<close>

definition CATEGORIES :: "string list" where
  "CATEGORIES =
     [''Food'', ''Transport'', ''Housing'', ''Health'',
      ''Entertainment'', ''Shopping'', ''Education'', ''Other'']"

record expense =
  expense_id :: string
  amount :: real
  category :: string
  description :: string
  date :: string

text \<open>
  \<open>Expense.__init__\<close>. The second argument is the random number \<open>uuid4\<close> would
  draw; it is used only when no id is passed. \<open>float(amount)\<close> is the one
  statement that can raise.
\<close>

definition Expense_init ::
  "runtime \<Rightarrow> 32 word \<Rightarrow> num_arg \<Rightarrow> string \<Rightarrow> string \<Rightarrow> string option \<Rightarrow> string option
     \<Rightarrow> error + expense" where
  "Expense_init rt u amt cat descr date_str exp_id =
     (case py_float rt amt of
        Inl err \<Rightarrow> Inl err
      | Inr a \<Rightarrow>
          Inr \<lparr>expense_id = or_else exp_id (uuid8 u),
               amount = a,
               category = (if cat \<in> set CATEGORIES then cat else ''Other''),
               description = strip descr,
               date = or_else date_str (today rt)\<rparr>)"

text \<open>
  The flat row \<open>{id, amount, category, description, date}\<close>. \<open>to_dict\<close> puts the
  float itself under \<open>amount\<close>; a row of the CSV file has text there.
\<close>

record pydict =
  d_id :: string
  d_amount :: num_arg
  d_category :: string
  d_description :: string
  d_date :: string

definition Expense_to_dict :: "expense \<Rightarrow> pydict" where
  "Expense_to_dict e =
     \<lparr>d_id = expense_id e, d_amount = Flt (amount e), d_category = category e,
      d_description = description e, d_date = date e\<rparr>"

definition Expense_from_dict :: "runtime \<Rightarrow> 32 word \<Rightarrow> pydict \<Rightarrow> error + expense" where
  "Expense_from_dict rt u d =
     Expense_init rt u (d_amount d) (d_category d) (d_description d)
       (Some (d_date d)) (Some (d_id d))"

section \<open>budget.py\<close>

text \<open>
  The ledger is the in-memory list together with the CSV file, which is absent
  (\<open>None\<close>) or holds, under the header \<open>id,amount,category,description,date\<close>,
  the data rows of five cells. The \<open>csv\<close> module is library code.
  \<open>DictWriter.writerow\<close> turns every value of the row into its text, quoting
  what needs quotes. \<open>DictReader\<close> gives the cells of a row back as they were
  written, and raises its \<open>Error\<close> on a cell of more than 131072 characters
  (the field limit of the module).
\<close>

record budget =
  expenses :: "expense list"
  disk :: "pydict list option"

definition writerow :: "runtime \<Rightarrow> pydict \<Rightarrow> pydict" where
  "writerow rt d =
     d\<lparr>d_amount := (case d_amount d of Flt x \<Rightarrow> Repr x | Repr x \<Rightarrow> Repr x | Txt s \<Rightarrow> Txt s)\<rparr>"

definition field_limit :: nat where
  "field_limit = 131072"

definition over_limit :: "pydict \<Rightarrow> bool" where
  "over_limit row \<longleftrightarrow>
     field_limit < length (d_id row)
     \<or> (case d_amount row of Txt s \<Rightarrow> field_limit < length s | Flt x \<Rightarrow> False | Repr x \<Rightarrow> False)
     \<or> field_limit < length (d_category row)
     \<or> field_limit < length (d_description row)
     \<or> field_limit < length (d_date row)"

definition Budget_save :: "runtime \<Rightarrow> budget \<Rightarrow> budget" where
  "Budget_save rt b = b\<lparr>disk := Some (map (\<lambda>ex. writerow rt (Expense_to_dict ex)) (expenses b))\<rparr>"

text \<open>
  The loop of \<open>_load\<close>: the reader hands over the rows one at a time, row \<open>k\<close> is
  built with the random number \<open>us k\<close>, and an exception of the reader or of
  \<open>from_dict\<close> ends the loop.
\<close>

fun load_rows ::
  "runtime \<Rightarrow> (nat \<Rightarrow> 32 word) \<Rightarrow> nat \<Rightarrow> pydict list \<Rightarrow> expense list \<Rightarrow> error + expense list" where
  "load_rows rt us k [] acc = Inr acc"
| "load_rows rt us k (row # rows) acc =
     (if over_limit row then Inl CsvError
      else (case Expense_from_dict rt (us k) row of
              Inl err \<Rightarrow> Inl err
            | Inr e \<Rightarrow> load_rows rt us (Suc k) rows (acc @ [e])))"

definition Budget_load :: "runtime \<Rightarrow> (nat \<Rightarrow> 32 word) \<Rightarrow> budget \<Rightarrow> error + budget" where
  "Budget_load rt us b =
     (case disk b of
        None \<Rightarrow> Inr b
      | Some rows \<Rightarrow>
          (case load_rows rt us 0 rows (expenses b) of
             Inl err \<Rightarrow> Inl err
           | Inr es \<Rightarrow> Inr (b\<lparr>expenses := es\<rparr>)))"

text \<open>\<open>Budget.__init__\<close> on a given state of the file.\<close>

definition Budget_init :: "runtime \<Rightarrow> (nat \<Rightarrow> 32 word) \<Rightarrow> pydict list option \<Rightarrow> error + budget" where
  "Budget_init rt us f = Budget_load rt us \<lparr>expenses = [], disk = f\<rparr>"

definition Budget_add :: "runtime \<Rightarrow> budget \<Rightarrow> expense \<Rightarrow> expense \<times> budget" where
  "Budget_add rt b e = (e, Budget_save rt (b\<lparr>expenses := expenses b @ [e]\<rparr>))"

definition Budget_read_all :: "budget \<Rightarrow> string option \<Rightarrow> string option \<Rightarrow> expense list \<times> budget" where
  "Budget_read_all b cat month =
     (let result = expenses b;
          result = (if truthy cat
                    then filter (\<lambda>e. lower (category e) = lower (the cat)) result
                    else result);
          result = (if truthy month
                    then filter (\<lambda>e. startswith (date e) (the month)) result
                    else result)
      in (result, b))"

text \<open>The keyword arguments of \<open>update\<close>: each one is passed or not.\<close>

record kwargs =
  kw_amount :: "num_arg option"
  kw_category :: "string option"
  kw_description :: "string option"
  kw_date :: "string option"

definition apply_fields :: "runtime \<Rightarrow> kwargs \<Rightarrow> expense \<Rightarrow> error + expense" where
  "apply_fields rt kw ex =
     (case (case kw_amount kw of
              None \<Rightarrow> Inr ex
            | Some a \<Rightarrow> (case py_float rt a of
                           Inl err \<Rightarrow> Inl err
                         | Inr x \<Rightarrow> Inr (ex\<lparr>amount := x\<rparr>))) of
        Inl err \<Rightarrow> Inl err
      | Inr e1 \<Rightarrow>
          (let e2 = (case kw_category kw of
                       None \<Rightarrow> e1
                     | Some c \<Rightarrow> if c \<in> set CATEGORIES then e1\<lparr>category := c\<rparr> else e1);
               e3 = (case kw_description kw of
                       None \<Rightarrow> e2
                     | Some d \<Rightarrow> e2\<lparr>description := strip d\<rparr>);
               e4 = (case kw_date kw of
                       None \<Rightarrow> e3
                     | Some d \<Rightarrow> e3\<lparr>date := d\<rparr>)
           in Inr e4))"

text \<open>
  The loop of \<open>update\<close>: the first record with the id is changed in place and
  returned with the new list; \<open>None\<close> when the loop ends without a match.
\<close>

fun update_loop ::
  "runtime \<Rightarrow> string \<Rightarrow> kwargs \<Rightarrow> expense list \<Rightarrow> error + (expense \<times> expense list) option" where
  "update_loop rt i kw [] = Inr None"
| "update_loop rt i kw (ex # rest) =
     (if expense_id ex = i
      then (case apply_fields rt kw ex of
              Inl err \<Rightarrow> Inl err
            | Inr ex' \<Rightarrow> Inr (Some (ex', ex' # rest)))
      else (case update_loop rt i kw rest of
              Inl err \<Rightarrow> Inl err
            | Inr None \<Rightarrow> Inr None
            | Inr (Some (r, rest')) \<Rightarrow> Inr (Some (r, ex # rest'))))"

text \<open>
  \<open>update\<close> gives the value returned (or the exception raised) and the state
  afterwards. \<open>float\<close> raises before the record is touched, so the state of an
  exception is the state before the call.
\<close>

definition Budget_update ::
  "runtime \<Rightarrow> budget \<Rightarrow> string \<Rightarrow> kwargs \<Rightarrow> (error + expense option) \<times> budget" where
  "Budget_update rt b i kw =
     (case update_loop rt i kw (expenses b) of
        Inl err \<Rightarrow> (Inl err, b)
      | Inr None \<Rightarrow> (Inr None, b)
      | Inr (Some (ex, es)) \<Rightarrow> (Inr (Some ex), Budget_save rt (b\<lparr>expenses := es\<rparr>)))"

definition Budget_delete :: "runtime \<Rightarrow> budget \<Rightarrow> string \<Rightarrow> bool \<times> budget" where
  "Budget_delete rt b i =
     (let original = length (expenses b);
          b1 = b\<lparr>expenses := filter (\<lambda>e. expense_id e \<noteq> i) (expenses b)\<rparr>
      in if length (expenses b1) < original then (True, Budget_save rt b1) else (False, b1))"

definition Budget_total :: "budget \<Rightarrow> string option \<Rightarrow> string option \<Rightarrow> real \<times> budget" where
  "Budget_total b cat month =
     (case Budget_read_all b cat month of (result, b1) \<Rightarrow> (sum_list (map amount result), b1))"

section \<open>The ledger invariant and the states the program reaches\<close>

definition expense_inv :: "expense \<Rightarrow> bool" where
  "expense_inv e \<longleftrightarrow> expense_id e \<noteq> [] \<and> category e \<in> set CATEGORIES"

definition ledger_inv :: "expense list \<Rightarrow> bool" where
  "ledger_inv es \<longleftrightarrow> list_all expense_inv es \<and> distinct (map expense_id es)"

text \<open>The rows of a file carry non-empty, pairwise different ids.\<close>

definition disk_ok :: "pydict list option \<Rightarrow> bool" where
  "disk_ok f \<longleftrightarrow>
     (case f of None \<Rightarrow> True
      | Some rows \<Rightarrow> list_all (\<lambda>r. d_id r \<noteq> []) rows \<and> distinct (map d_id rows))"

text \<open>
  A run of the program: started on any state of the file (a restart is a start
  on the file as it then is), and changed by \<open>add\<close> of a constructed expense, by
  \<open>update\<close> and by \<open>delete\<close>.
\<close>

inductive reachable :: "runtime \<Rightarrow> budget \<Rightarrow> bool" for rt :: runtime where
  start: "Budget_init rt us f = Inr b \<Longrightarrow> reachable rt b"
| added: "reachable rt b \<Longrightarrow> Expense_init rt u amt cat descr date_str exp_id = Inr e \<Longrightarrow>
     reachable rt (snd (Budget_add rt b e))"
| updated: "reachable rt b \<Longrightarrow> reachable rt (snd (Budget_update rt b i kw))"
| deleted: "reachable rt b \<Longrightarrow> reachable rt (snd (Budget_delete rt b i))"

text \<open>
  The runs in which ids stay unique: started on no file or on a file whose rows
  carry non-empty, pairwise different ids, restarted on the file the program
  wrote, and with \<open>add\<close> only of an expense whose id is not yet in the ledger.
\<close>

inductive reachable_unique :: "runtime \<Rightarrow> budget \<Rightarrow> bool" for rt :: runtime where
  start_unique: "disk_ok f \<Longrightarrow> Budget_init rt us f = Inr b \<Longrightarrow> reachable_unique rt b"
| restart_unique: "reachable_unique rt b \<Longrightarrow> Budget_init rt us (disk b) = Inr b' \<Longrightarrow>
     reachable_unique rt b'"
| added_unique: "reachable_unique rt b \<Longrightarrow>
     Expense_init rt u amt cat descr date_str exp_id = Inr e \<Longrightarrow>
     expense_id e \<notin> set (map expense_id (expenses b)) \<Longrightarrow>
     reachable_unique rt (snd (Budget_add rt b e))"
| updated_unique: "reachable_unique rt b \<Longrightarrow> reachable_unique rt (snd (Budget_update rt b i kw))"
| deleted_unique: "reachable_unique rt b \<Longrightarrow> reachable_unique rt (snd (Budget_delete rt b i))"

section \<open>What the specification says a filtered read returns\<close>

text \<open>
  Case-insensitive equality as the specification words it, letter by letter, and
  the month filter as a prefix of the date. A filter counts as given when it is
  a non-empty string.
\<close>

definition is_upper :: "char \<Rightarrow> bool" where
  "is_upper c = (let n = (of_char c :: nat) in 65 \<le> n \<and> n \<le> 90)"

definition same_letter :: "char \<Rightarrow> char \<Rightarrow> bool" where
  "same_letter c d \<longleftrightarrow>
     c = d \<or> (is_upper c \<and> d = lower_char c) \<or> (is_upper d \<and> c = lower_char d)"

definition spec_ci_equal :: "string \<Rightarrow> string \<Rightarrow> bool" where
  "spec_ci_equal a b \<longleftrightarrow> list_all2 same_letter a b"

definition spec_matches :: "string option \<Rightarrow> string option \<Rightarrow> expense \<Rightarrow> bool" where
  "spec_matches cat month e \<longleftrightarrow>
     (case cat of None \<Rightarrow> True | Some c \<Rightarrow> c = [] \<or> spec_ci_equal (category e) c) \<and>
     (case month of None \<Rightarrow> True | Some m \<Rightarrow> m = [] \<or> prefix m (date e))"

section \<open>The scenario of the specification\<close>

text \<open>
  Three records, (100, Food, lunch, 2024-05-01), (50, Transport, bus,
  2024-05-02) and (200, Food, groceries, 2024-06-01), and a runtime that reads
  three texts as numbers.
\<close>

definition demo_rt :: runtime where
  "demo_rt =
     \<lparr>today = ''2024-06-15'',
      float_of_str = (\<lambda>s. if s = ''100.0'' then Some 100 else if s = ''50.0'' then Some 50
                           else if s = ''200.0'' then Some 200 else None)\<rparr>"

definition lunch :: expense where
  "lunch = \<lparr>expense_id = ''1a2b3c4d'', amount = 100, category = ''Food'',
            description = ''lunch'', date = ''2024-05-01''\<rparr>"

definition bus :: expense where
  "bus = \<lparr>expense_id = ''5e6f7a8b'', amount = 50, category = ''Transport'',
          description = ''bus'', date = ''2024-05-02''\<rparr>"

definition groceries :: expense where
  "groceries = \<lparr>expense_id = ''9c0d1e2f'', amount = 200, category = ''Food'',
                description = ''groceries'', date = ''2024-06-01''\<rparr>"

definition demo_budget :: budget where
  "demo_budget = Budget_save demo_rt \<lparr>expenses = [lunch, bus, groceries], disk = None\<rparr>"

definition demo_kw :: kwargs where
  "demo_kw = \<lparr>kw_amount = Some (Txt ''200.0''), kw_category = None, kw_description = None,
               kw_date = Some ''2024-05-03''\<rparr>"

text \<open>A ledger in which two records carry the same id.\<close>

definition twins :: budget where
  "twins = \<lparr>expenses = [lunch, lunch\<lparr>description := ''lunch again''\<rparr>, bus], disk = None\<rparr>"

text \<open>A run in which the random numbers are all zero, and the ledger before any record.\<close>

definition no_draws :: "nat \<Rightarrow> 32 word" where
  "no_draws k = 0"

definition empty_budget :: budget where
  "empty_budget = \<lparr>expenses = [], disk = None\<rparr>"

definition clash :: expense where
  "clash = bus\<lparr>expense_id := ''1a2b3c4d''\<rparr>"

definition undated :: budget where
  "undated =
     snd (Budget_update demo_rt (snd (Budget_add demo_rt empty_budget lunch)) ''1a2b3c4d''
       \<lparr>kw_amount = None, kw_category = None, kw_description = None, kw_date = Some []\<rparr>)"

text \<open>
  The run of the scenario: the three records added to an empty ledger, the bus
  fare updated, the lunch deleted, and the program restarted on its file.
\<close>

definition bus_updated :: expense where
  "bus_updated = bus\<lparr>amount := 200, date := ''2024-05-03''\<rparr>"

definition demo_run1 :: budget where
  "demo_run1 = snd (Budget_add demo_rt empty_budget lunch)"

definition demo_run2 :: budget where
  "demo_run2 = snd (Budget_add demo_rt demo_run1 bus)"

definition demo_run3 :: budget where
  "demo_run3 = snd (Budget_add demo_rt demo_run2 groceries)"

definition demo_run4 :: budget where
  "demo_run4 = snd (Budget_update demo_rt demo_run3 ''5e6f7a8b'' demo_kw)"

definition demo_run5 :: budget where
  "demo_run5 = snd (Budget_delete demo_rt demo_run4 ''1a2b3c4d'')"

definition demo_run6 :: budget where
  "demo_run6 = \<lparr>expenses = [bus_updated, groceries], disk = disk demo_run5\<rparr>"

text \<open>A record whose description is one character longer than the field limit.\<close>

definition long_note :: expense where
  "long_note = lunch\<lparr>description := replicate 131073 (CHR ''x'')\<rparr>"

section \<open>What a record is after it was written and read back\<close>

text \<open>
  A record fits when none of its texts is longer than the field limit of the
  reader. The record rebuilt from the row of a record: the constructor strips
  the description and puts today's date in place of an empty one.
\<close>

definition fits :: "expense \<Rightarrow> bool" where
  "fits e \<longleftrightarrow>
     length (expense_id e) \<le> field_limit \<and> length (category e) \<le> field_limit
     \<and> length (description e) \<le> field_limit \<and> length (date e) \<le> field_limit"

definition reloaded :: "runtime \<Rightarrow> expense \<Rightarrow> expense" where
  "reloaded rt e =
     e\<lparr>description := strip (description e), date := or_else (Some (date e)) (today rt)\<rparr>"

section \<open>Facts about the builtins\<close>

lemma code_lower_char:
  "(of_char (lower_char c) :: nat) = (if is_upper c then of_char c + 32 else of_char c)"
  by (simp add: lower_char_def is_upper_def Let_def)

lemma char_eq_code: "c = d \<longleftrightarrow> (of_char c :: nat) = of_char d"
  by simp

lemma lower_char_eq_iff: "lower_char c = lower_char d \<longleftrightarrow> same_letter c d"
proof -
  have "lower_char c = lower_char d \<longleftrightarrow>
        (of_char (lower_char c) :: nat) = of_char (lower_char d)"
    by simp
  also have "\<dots> \<longleftrightarrow> same_letter c d"
    unfolding same_letter_def char_eq_code [of c d] char_eq_code [of d "lower_char c"]
      char_eq_code [of c "lower_char d"] code_lower_char
    by (auto simp: is_upper_def Let_def)
  finally show ?thesis .
qed

lemma lower_eq_iff: "lower a = lower b \<longleftrightarrow> spec_ci_equal a b"
  unfolding lower_def spec_ci_equal_def
proof (induction a arbitrary: b)
  case Nil
  show ?case by auto
next
  case (Cons x xs)
  show ?case
    by (cases b) (simp_all add: Cons.IH lower_char_eq_iff)
qed

lemma startswith_prefix: "startswith s p \<longleftrightarrow> prefix p s"
  unfolding startswith_def
  by (metis append_eq_conv_conj prefix_def append_take_drop_id)

lemma demo_expenses: "expenses demo_budget = [lunch, bus, groceries]"
  by (simp add: demo_budget_def Budget_save_def)

section \<open>Facts about the update loop and the scenario\<close>

lemma update_loop_absent:
  "i \<notin> set (map expense_id es) \<Longrightarrow> update_loop rt i kw es = Inr None"
  by (induction es) auto

lemma update_loop_present:
  "i \<in> set (map expense_id es) \<Longrightarrow>
   \<exists>pre old post. es = pre @ old # post \<and> i \<notin> set (map expense_id pre) \<and> expense_id old = i \<and>
     update_loop rt i kw es =
       (case apply_fields rt kw old of
          Inl err \<Rightarrow> Inl err
        | Inr new \<Rightarrow> Inr (Some (new, pre @ new # post)))"
proof (induction es)
  case Nil
  then show ?case by simp
next
  case (Cons e es)
  show ?case
  proof (cases "expense_id e = i")
    case True
    then have "e # es = [] @ e # es \<and> i \<notin> set (map expense_id []) \<and> expense_id e = i \<and>
      update_loop rt i kw (e # es) =
        (case apply_fields rt kw e of
           Inl err \<Rightarrow> Inl err
         | Inr new \<Rightarrow> Inr (Some (new, [] @ new # es)))"
      by (simp split: sum.splits)
    then show ?thesis by blast
  next
    case False
    with Cons.prems have "i \<in> set (map expense_id es)" by auto
    from Cons.IH [OF this] obtain pre old post where
      h: "es = pre @ old # post" "i \<notin> set (map expense_id pre)" "expense_id old = i"
         "update_loop rt i kw es =
            (case apply_fields rt kw old of
               Inl err \<Rightarrow> Inl err
             | Inr new \<Rightarrow> Inr (Some (new, pre @ new # post)))"
      by blast
    have "e # es = (e # pre) @ old # post \<and> i \<notin> set (map expense_id (e # pre)) \<and>
      expense_id old = i \<and>
      update_loop rt i kw (e # es) =
        (case apply_fields rt kw old of
           Inl err \<Rightarrow> Inl err
         | Inr new \<Rightarrow> Inr (Some (new, (e # pre) @ new # post)))"
      using False h by (simp split: sum.splits)
    then show ?thesis by blast
  qed
qed

lemma apply_fields_error:
  "kw_amount kw = Some a \<Longrightarrow> py_float rt a = Inl err \<Longrightarrow> apply_fields rt kw old = Inl err"
  by (simp add: apply_fields_def)

lemma apply_fields_result:
  assumes "\<forall>a. kw_amount kw = Some a \<longrightarrow> (\<exists>x. py_float rt a = Inr x)"
  shows "\<exists>new. apply_fields rt kw old = Inr new \<and> expense_id new = expense_id old
    \<and> amount new = (case kw_amount kw of None \<Rightarrow> amount old
                     | Some a \<Rightarrow> (case py_float rt a of Inr x \<Rightarrow> x | Inl err \<Rightarrow> amount old))
    \<and> category new = (case kw_category kw of None \<Rightarrow> category old
                       | Some c \<Rightarrow> if c \<in> set CATEGORIES then c else category old)
    \<and> description new = (case kw_description kw of None \<Rightarrow> description old | Some d \<Rightarrow> strip d)
    \<and> date new = (case kw_date kw of None \<Rightarrow> date old | Some d \<Rightarrow> d)"
  using assms
  by (cases "kw_amount kw"; cases "kw_category kw"; cases "kw_description kw"; cases "kw_date kw")
     (auto simp: apply_fields_def Let_def)

lemma demo_ids: "map expense_id (expenses demo_budget) = [''1a2b3c4d'', ''5e6f7a8b'', ''9c0d1e2f'']"
  by (simp add: demo_expenses lunch_def bus_def groceries_def Budget_save_def)

lemma demo_float: "py_float demo_rt (Txt ''200.0'') = Inr 200"
  by (simp add: py_float_def demo_rt_def)

lemma bogus: "''Bogus'' \<notin> set CATEGORIES"
  by (simp add: CATEGORIES_def)

section \<open>Facts about construction, loading and saving\<close>

lemma uuid8_nonempty: "uuid8 u \<noteq> []"
  by (simp add: uuid8_def)

lemma or_else_nonempty: "d \<noteq> [] \<Longrightarrow> or_else x d \<noteq> []"
  by (cases x) auto

lemma Other_valid: "''Other'' \<in> set CATEGORIES"
  by (simp add: CATEGORIES_def)

lemma Expense_init_inv:
  "Expense_init rt u amt cat descr date_str exp_id = Inr e \<Longrightarrow> expense_inv e"
  by (auto simp: Expense_init_def expense_inv_def or_else_nonempty uuid8_nonempty Other_valid
      split: sum.splits)

lemma Expense_from_dict_id:
  "Expense_from_dict rt u d = Inr e \<Longrightarrow> d_id d \<noteq> [] \<Longrightarrow> expense_id e = d_id d"
  by (auto simp: Expense_from_dict_def Expense_init_def split: sum.splits)

lemma load_rows_inv:
  "load_rows rt us k rows acc = Inr es \<Longrightarrow> list_all (\<lambda>r. d_id r \<noteq> []) rows \<Longrightarrow>
   list_all expense_inv acc \<Longrightarrow>
   list_all expense_inv es \<and> map expense_id es = map expense_id acc @ map d_id rows"
proof (induction rows arbitrary: k acc)
  case Nil
  then show ?case by simp
next
  case (Cons row rows)
  from Cons.prems(1) obtain e where
    e: "Expense_from_dict rt (us k) row = Inr e"
    and r: "load_rows rt us (Suc k) rows (acc @ [e]) = Inr es"
    by (auto split: sum.splits if_splits)
  have "expense_inv e"
    using e by (simp add: Expense_from_dict_def Expense_init_inv)
  moreover have "expense_id e = d_id row"
    using e Cons.prems(2) by (simp add: Expense_from_dict_id)
  ultimately show ?case
    using Cons.IH [OF r] Cons.prems(2,3) by simp
qed

lemma load_rows_valid:
  "load_rows rt us k rows acc = Inr es \<Longrightarrow> list_all expense_inv acc \<Longrightarrow> list_all expense_inv es"
proof (induction rows arbitrary: k acc)
  case Nil
  then show ?case by simp
next
  case (Cons row rows)
  from Cons.prems(1) obtain e where
    e: "Expense_from_dict rt (us k) row = Inr e"
    and r: "load_rows rt us (Suc k) rows (acc @ [e]) = Inr es"
    by (auto split: sum.splits if_splits)
  have "expense_inv e"
    using e by (simp add: Expense_from_dict_def Expense_init_inv)
  with Cons.IH [OF r] Cons.prems(2) show ?case by simp
qed

lemma Budget_init_valid:
  assumes "Budget_init rt us f = Inr b"
  shows "list_all expense_inv (expenses b)"
proof (cases f)
  case None
  with assms show ?thesis
    by (auto simp: Budget_init_def Budget_load_def)
next
  case (Some rows)
  with assms obtain es where
    l: "load_rows rt us 0 rows [] = Inr es" and b: "b = \<lparr>expenses = es, disk = f\<rparr>"
    by (auto simp: Budget_init_def Budget_load_def split: sum.splits)
  from load_rows_valid [OF l] b show ?thesis by simp
qed

lemma Budget_init_inv:
  assumes "Budget_init rt us f = Inr b" and "disk_ok f"
  shows "ledger_inv (expenses b) \<and> disk b = f"
proof (cases f)
  case None
  with assms show ?thesis
    by (auto simp: Budget_init_def Budget_load_def ledger_inv_def)
next
  case (Some rows)
  with assms(1) obtain es where
    l: "load_rows rt us 0 rows [] = Inr es" and b: "b = \<lparr>expenses = es, disk = f\<rparr>"
    by (auto simp: Budget_init_def Budget_load_def split: sum.splits)
  from assms(2) Some have ok: "list_all (\<lambda>r. d_id r \<noteq> []) rows" "distinct (map d_id rows)"
    by (simp_all add: disk_ok_def)
  from load_rows_inv [OF l ok(1)] ok(2) b show ?thesis
    by (simp add: ledger_inv_def)
qed

lemma save_disk_ok:
  "ledger_inv (expenses b) \<Longrightarrow> disk_ok (disk (Budget_save rt b))"
  by (auto simp: Budget_save_def disk_ok_def ledger_inv_def writerow_def Expense_to_dict_def
      expense_inv_def list_all_iff comp_def)

lemma save_expenses: "expenses (Budget_save rt b) = expenses b"
  by (simp add: Budget_save_def)

lemma apply_fields_inv:
  "apply_fields rt kw old = Inr new \<Longrightarrow> expense_inv old \<Longrightarrow>
   expense_inv new \<and> expense_id new = expense_id old"
  by (auto simp: apply_fields_def Let_def expense_inv_def split: sum.splits option.splits if_splits)

lemma update_loop_inv:
  "update_loop rt i kw es = Inr (Some (r, es')) \<Longrightarrow> list_all expense_inv es \<Longrightarrow>
   list_all expense_inv es' \<and> map expense_id es' = map expense_id es"
proof (induction es arbitrary: es')
  case Nil
  then show ?case by simp
next
  case (Cons e es)
  show ?case
  proof (cases "expense_id e = i")
    case True
    with Cons.prems show ?thesis
      by (auto split: sum.splits dest: apply_fields_inv)
  next
    case False
    with Cons.prems(1) obtain rest where
      "update_loop rt i kw es = Inr (Some (r, rest))" "es' = e # rest"
      by (auto split: sum.splits option.splits)
    with Cons.IH [of rest] Cons.prems(2) show ?thesis by simp
  qed
qed

lemma uuid8_example: "uuid8 0x1a2b3c4d = ''1a2b3c4d''"
  by (simp add: uuid8_def hexdigit_def char_of_def bit_Suc_0_iff)

lemma uuid8_examples: "uuid8 0x5e6f7a8b = ''5e6f7a8b''" "uuid8 0x9c0d1e2f = ''9c0d1e2f''"
  by (simp_all add: uuid8_def hexdigit_def char_of_def bit_Suc_0_iff)

lemma strip_words: "strip ''lunch'' = ''lunch''" "strip ''bus'' = ''bus''"
  "strip ''groceries'' = ''groceries''"
  by (simp_all add: strip_def is_space_def)

lemma construct_bus:
  "Expense_init demo_rt 0x5e6f7a8b (Flt 50) ''Transport'' ''bus'' (Some ''2024-05-02'') None
     = Inr bus"
  by (simp add: Expense_init_def py_float_def uuid8_examples strip_words CATEGORIES_def bus_def)

lemma construct_groceries:
  "Expense_init demo_rt 0x9c0d1e2f (Flt 200) ''Food'' ''groceries'' (Some ''2024-06-01'') None
     = Inr groceries"
  by (simp add: Expense_init_def py_float_def uuid8_examples strip_words CATEGORIES_def
      groceries_def)

lemma construct_lunch:
  "Expense_init demo_rt 0x1a2b3c4d (Flt 100) ''Food'' ''lunch'' (Some ''2024-05-01'') None
     = Inr lunch"
  by (simp add: Expense_init_def py_float_def uuid8_example strip_words CATEGORIES_def lunch_def)

lemma construct_clash:
  "Expense_init demo_rt 0x1a2b3c4d (Flt 50) ''Transport'' ''bus'' (Some ''2024-05-02'') None
     = Inr clash"
  by (simp add: Expense_init_def py_float_def uuid8_example strip_words CATEGORIES_def
      clash_def bus_def)

lemma strip_keeps_head:
  assumes "xs \<noteq> []" and "\<not> P (hd xs)"
  shows "\<exists>ys. rev (dropWhile P (rev xs)) = hd xs # ys"
proof -
  from assms(1) have "rev xs = rev (tl xs) @ [hd xs]"
    by (cases xs) simp_all
  then have "\<exists>zs. dropWhile P (rev xs) = zs @ [hd xs]"
    using assms(2) by (simp add: dropWhile_append)
  then show ?thesis
    by (metis rev.simps(2) rev_rev_ident)
qed

lemma strip_idem: "strip (strip s) = strip s"
proof (cases "dropWhile is_space s = []")
  case True
  have e: "strip s = []"
    unfolding strip_def True by simp
  have "strip [] = []"
    by (simp add: strip_def)
  with e show ?thesis by simp
next
  case False
  let ?t = "dropWhile is_space s"
  from False have h: "\<not> is_space (hd ?t)"
    by (rule hd_dropWhile)
  from False h obtain ys where r: "rev (dropWhile is_space (rev ?t)) = hd ?t # ys"
    using strip_keeps_head [of ?t is_space] by blast
  have s: "strip s = hd ?t # ys"
    using r by (simp add: strip_def)
  have d: "dropWhile is_space (strip s) = strip s"
    using h by (simp add: s)
  have "rev (strip s) = dropWhile is_space (rev ?t)"
    by (simp add: strip_def)
  then have "dropWhile is_space (rev (strip s)) = rev (strip s)"
    by simp
  then have "rev (dropWhile is_space (rev (dropWhile is_space (strip s)))) = strip s"
    by (simp add: d)
  then show ?thesis
    by (simp add: strip_def [of "strip s"])
qed

lemma Expense_init_stripped:
  "Expense_init rt u amt cat descr date_str exp_id = Inr e \<Longrightarrow> strip (description e) = description e"
  by (auto simp: Expense_init_def strip_idem split: sum.splits)

lemma apply_fields_stripped:
  "apply_fields rt kw old = Inr new \<Longrightarrow> strip (description old) = description old \<Longrightarrow>
   strip (description new) = description new"
  by (auto simp: apply_fields_def Let_def strip_idem split: sum.splits option.splits if_splits)

lemma over_limit_saved: "over_limit (writerow rt (Expense_to_dict e)) \<longleftrightarrow> \<not> fits e"
  by (auto simp: over_limit_def writerow_def Expense_to_dict_def fits_def)

lemma from_dict_saved:
  "\<exists>e'. Expense_from_dict rt u (writerow rt (Expense_to_dict e)) = Inr e'"
  by (simp add: Expense_from_dict_def writerow_def Expense_to_dict_def Expense_init_def
      py_float_def)

lemma from_dict_to_dict:
  "expense_inv e \<Longrightarrow>
   Expense_from_dict rt u (writerow rt (Expense_to_dict e)) = Inr (reloaded rt e)"
  by (simp add: expense_inv_def Expense_from_dict_def writerow_def Expense_to_dict_def
      Expense_init_def py_float_def reloaded_def)

lemma load_rows_saved:
  "list_all expense_inv es \<Longrightarrow> list_all fits es \<Longrightarrow>
   load_rows rt us k (map (\<lambda>ex. writerow rt (Expense_to_dict ex)) es) acc
     = Inr (acc @ map (reloaded rt) es)"
  by (induction es arbitrary: k acc) (simp_all add: from_dict_to_dict over_limit_saved)

lemma load_rows_unfit:
  "\<not> list_all fits es \<Longrightarrow>
   load_rows rt us k (map (\<lambda>ex. writerow rt (Expense_to_dict ex)) es) acc = Inl CsvError"
proof (induction es arbitrary: k acc)
  case Nil
  then show ?case by simp
next
  case (Cons e es)
  show ?case
  proof (cases "fits e")
    case True
    with Cons.prems have t: "\<not> list_all fits es" by simp
    obtain e' where "Expense_from_dict rt (us k) (writerow rt (Expense_to_dict e)) = Inr e'"
      using from_dict_saved by blast
    with True Cons.IH [OF t] show ?thesis
      by (simp add: over_limit_saved)
  next
    case False
    then show ?thesis
      by (simp add: over_limit_saved)
  qed
qed

lemma reloaded_fields:
  "expense_id (reloaded rt e) = expense_id e" "amount (reloaded rt e) = amount e"
  "category (reloaded rt e) = category e" "description (reloaded rt e) = strip (description e)"
  "date (reloaded rt e) = (if date e = [] then today rt else date e)"
  by (simp_all add: reloaded_def)

lemma reloaded_same:
  "strip (description e) = description e \<Longrightarrow> date e \<noteq> [] \<Longrightarrow> reloaded rt e = e"
  by (simp add: reloaded_def)

lemma demo_valid: "list_all expense_inv [lunch, bus, groceries]"
  by (simp add: expense_inv_def lunch_def bus_def groceries_def CATEGORIES_def)

lemma demo_fits: "list_all fits [lunch, bus, groceries]"
  by (simp add: fits_def field_limit_def lunch_def bus_def groceries_def)

lemma demo_reloaded: "map (reloaded demo_rt) [lunch, bus, groceries] = [lunch, bus, groceries]"
  by (simp add: reloaded_def lunch_def bus_def groceries_def strip_words)

lemma undated_expenses: "expenses undated = [lunch\<lparr>date := []\<rparr>]"
  by (simp add: undated_def Budget_update_def Budget_add_def Budget_save_def empty_budget_def
      apply_fields_def lunch_def)

section \<open>Facts about the run of the scenario\<close>

lemma demo_run1_eq: "demo_run1 = Budget_save demo_rt \<lparr>expenses = [lunch], disk = None\<rparr>"
  by (simp add: demo_run1_def Budget_add_def empty_budget_def)

lemma demo_run2_eq: "demo_run2 = Budget_save demo_rt \<lparr>expenses = [lunch, bus], disk = None\<rparr>"
  by (simp add: demo_run2_def demo_run1_eq Budget_add_def Budget_save_def)

lemma demo_run3_eq: "demo_run3 = demo_budget"
  by (simp add: demo_run3_def demo_run2_eq Budget_add_def Budget_save_def demo_budget_def)

lemma demo_run4_eq:
  "demo_run4 = Budget_save demo_rt \<lparr>expenses = [lunch, bus_updated, groceries], disk = None\<rparr>"
  by (simp add: demo_run4_def demo_run3_eq demo_budget_def Budget_update_def Budget_save_def
      apply_fields_def demo_kw_def py_float_def demo_rt_def lunch_def bus_def bus_updated_def)

lemma demo_run5_eq:
  "demo_run5 = Budget_save demo_rt \<lparr>expenses = [bus_updated, groceries], disk = None\<rparr>"
  by (simp add: demo_run5_def demo_run4_eq Budget_delete_def Budget_save_def
      lunch_def bus_def bus_updated_def groceries_def)

lemma demo_restart: "Budget_init demo_rt no_draws (disk demo_run5) = Inr demo_run6"
proof -
  have v: "list_all expense_inv [bus_updated, groceries]"
    by (simp add: expense_inv_def bus_updated_def bus_def groceries_def CATEGORIES_def)
  have f: "list_all fits [bus_updated, groceries]"
    by (simp add: fits_def field_limit_def bus_updated_def bus_def groceries_def)
  have r: "map (reloaded demo_rt) [bus_updated, groceries] = [bus_updated, groceries]"
    by (simp add: reloaded_def bus_updated_def bus_def groceries_def strip_words)
  have d: "disk demo_run5
      = Some (map (\<lambda>ex. writerow demo_rt (Expense_to_dict ex)) [bus_updated, groceries])"
    by (simp add: demo_run5_eq Budget_save_def)
  show ?thesis
    using load_rows_saved [OF v f, of demo_rt no_draws 0 "[]"]
    by (simp only: Budget_init_def Budget_load_def demo_run6_def d r)
       (simp add: d)
qed

section \<open>Filtered reads\<close>

text \<open>
  C2. For every ledger and every pair of optional filters, \<open>read_all\<close> returns
  exactly the records that match as the specification says: the category equal
  to the filter up to the case of its letters when a category filter is given,
  the date starting with the month filter when one is given. With no filter it
  returns every record, and the result is the stored list with the other
  records left out, in the stored order. A filter is given when it is a
  non-empty string.
\<close>

theorem read_all_matches:
  "fst (Budget_read_all b cat month) = filter (spec_matches cat month) (expenses b)
   \<and> fst (Budget_read_all b None None) = expenses b
   \<and> subseq (fst (Budget_read_all b cat month)) (expenses b)"
proof -
  have m: "fst (Budget_read_all b cat month) = filter (spec_matches cat month) (expenses b)"
    by (cases cat; cases month)
      (auto simp: Budget_read_all_def Let_def spec_matches_def lower_eq_iff startswith_prefix
         intro: filter_cong)
  have n: "fst (Budget_read_all b None None) = expenses b"
    by (simp add: Budget_read_all_def)
  show ?thesis
    using m n by simp
qed

theorem read_all_matches_witness:
  "fst (Budget_read_all demo_budget None (Some ''2024-05'')) = [lunch, bus]
   \<and> fst (Budget_read_all demo_budget (Some ''food'') None) = [lunch, groceries]
   \<and> fst (Budget_read_all demo_budget (Some ''FOOD'') (Some ''2024-06'')) = [groceries]"
proof -
  have l: "lower ''food'' = lower ''Food''" "lower ''FOOD'' = lower ''Food''"
    "lower ''Transport'' \<noteq> lower ''Food''"
    by code_simp+
  have c: "spec_ci_equal ''Food'' ''food''" "\<not> spec_ci_equal ''Transport'' ''food''"
    "spec_ci_equal ''Food'' ''FOOD''" "\<not> spec_ci_equal ''Transport'' ''FOOD''"
    using l by (simp_all add: lower_eq_iff [symmetric])
  show ?thesis
    using read_all_matches [of demo_budget None "Some ''2024-05''"]
      read_all_matches [of demo_budget "Some ''food''" None]
      read_all_matches [of demo_budget "Some ''FOOD''" "Some ''2024-06''"]
    by (simp add: demo_expenses spec_matches_def c lunch_def bus_def groceries_def)
qed

text \<open>
  C10. An empty string as category filter or as month filter is no filter:
  the filters are tested for truthiness, so \<open>read_all(category="")\<close> and
  \<open>read_all(month="")\<close> return every record.
\<close>

theorem read_all_empty_filter:
  "fst (Budget_read_all b (Some []) month) = fst (Budget_read_all b None month)
   \<and> fst (Budget_read_all b cat (Some [])) = fst (Budget_read_all b cat None)
   \<and> fst (Budget_read_all b (Some []) None) = expenses b
   \<and> fst (Budget_read_all b None (Some [])) = expenses b
   \<and> fst (Budget_read_all b (Some []) (Some [])) = expenses b"
  by (simp add: Budget_read_all_def Let_def)

text \<open>
  C9. \<open>read_all\<close> and \<open>total\<close> change neither the list in memory nor the file:
  the ledger after the call is the ledger before it, whatever the filters.
\<close>

theorem reads_do_not_mutate:
  "snd (Budget_read_all b cat month) = b \<and> snd (Budget_total b cat month) = b"
  by (simp add: Budget_total_def Budget_read_all_def Let_def split: prod.splits)

section \<open>Adding a record\<close>

text \<open>
  C8. \<open>add\<close> returns the expense it stored, and an unfiltered \<open>read_all\<close>
  afterwards is the former list with that expense appended. An expense that was
  not in the ledger before, as a newly constructed one is, occurs exactly once.
\<close>

theorem add_then_read_all:
  "fst (Budget_add rt b e) = e
   \<and> fst (Budget_read_all (snd (Budget_add rt b e)) None None) = expenses b @ [e]
   \<and> (e \<notin> set (expenses b) \<longrightarrow>
        count_list (fst (Budget_read_all (snd (Budget_add rt b e)) None None)) e = 1)"
  by (simp add: Budget_add_def Budget_read_all_def Budget_save_def count_list_0_iff)

theorem add_then_read_all_witness:
  "groceries \<notin> set [lunch, bus]
   \<and> count_list
        (fst (Budget_read_all
               (snd (Budget_add demo_rt \<lparr>expenses = [lunch, bus], disk = None\<rparr> groceries))
               None None)) groceries = 1"
  using add_then_read_all [of demo_rt "\<lparr>expenses = [lunch, bus], disk = None\<rparr>" groceries]
  by (simp add: lunch_def bus_def groceries_def)

section \<open>Updating and deleting\<close>

text \<open>
  C3. \<open>update\<close> on an id that no stored record has returns \<open>None\<close> and leaves
  the list and the file as they were. When the id is present (and the amount
  passed, if any, converts to a float), the first record with the id is replaced
  in place by a record with the same id in which each field not passed keeps its
  value, every other record is untouched, the new list is persisted and the
  record is returned. An amount that does not convert raises before anything is
  changed.
\<close>

theorem update_behaviour:
  "(i \<notin> set (map expense_id (expenses b)) \<longrightarrow> Budget_update rt b i kw = (Inr None, b))
   \<and> (i \<in> set (map expense_id (expenses b)) \<and>
        (\<forall>a. kw_amount kw = Some a \<longrightarrow> (\<exists>x. py_float rt a = Inr x)) \<longrightarrow>
        (\<exists>pre old post new.
           expenses b = pre @ old # post \<and> i \<notin> set (map expense_id pre) \<and> expense_id old = i
           \<and> Budget_update rt b i kw =
               (Inr (Some new), Budget_save rt (b\<lparr>expenses := pre @ new # post\<rparr>))
           \<and> expense_id new = i
           \<and> amount new = (case kw_amount kw of None \<Rightarrow> amount old
                | Some a \<Rightarrow> (case py_float rt a of Inr x \<Rightarrow> x | Inl err \<Rightarrow> amount old))
           \<and> category new = (case kw_category kw of None \<Rightarrow> category old
                | Some c \<Rightarrow> if c \<in> set CATEGORIES then c else category old)
           \<and> description new =
               (case kw_description kw of None \<Rightarrow> description old | Some d \<Rightarrow> strip d)
           \<and> date new = (case kw_date kw of None \<Rightarrow> date old | Some d \<Rightarrow> d)))
   \<and> (\<forall>a err. i \<in> set (map expense_id (expenses b)) \<and> kw_amount kw = Some a \<and>
         py_float rt a = Inl err \<longrightarrow> Budget_update rt b i kw = (Inl err, b))"
proof (intro conjI impI allI)
  assume "i \<notin> set (map expense_id (expenses b))"
  then show "Budget_update rt b i kw = (Inr None, b)"
    by (simp add: Budget_update_def update_loop_absent)
next
  assume a: "i \<in> set (map expense_id (expenses b)) \<and>
    (\<forall>a. kw_amount kw = Some a \<longrightarrow> (\<exists>x. py_float rt a = Inr x))"
  from update_loop_present [of i "expenses b" rt kw] a obtain pre old post where
    h: "expenses b = pre @ old # post" "i \<notin> set (map expense_id pre)" "expense_id old = i"
       "update_loop rt i kw (expenses b) =
          (case apply_fields rt kw old of
             Inl err \<Rightarrow> Inl err
           | Inr new \<Rightarrow> Inr (Some (new, pre @ new # post)))"
    by blast
  from apply_fields_result [of kw rt old] a obtain new where
    n: "apply_fields rt kw old = Inr new" "expense_id new = expense_id old"
       "amount new = (case kw_amount kw of None \<Rightarrow> amount old
           | Some a \<Rightarrow> (case py_float rt a of Inr x \<Rightarrow> x | Inl err \<Rightarrow> amount old))"
       "category new = (case kw_category kw of None \<Rightarrow> category old
           | Some c \<Rightarrow> if c \<in> set CATEGORIES then c else category old)"
       "description new = (case kw_description kw of None \<Rightarrow> description old | Some d \<Rightarrow> strip d)"
       "date new = (case kw_date kw of None \<Rightarrow> date old | Some d \<Rightarrow> d)"
    by blast
  have u: "Budget_update rt b i kw =
      (Inr (Some new), Budget_save rt (b\<lparr>expenses := pre @ new # post\<rparr>))"
    by (simp add: Budget_update_def h(4) n(1))
  show "\<exists>pre old post new.
           expenses b = pre @ old # post \<and> i \<notin> set (map expense_id pre) \<and> expense_id old = i
           \<and> Budget_update rt b i kw =
               (Inr (Some new), Budget_save rt (b\<lparr>expenses := pre @ new # post\<rparr>))
           \<and> expense_id new = i
           \<and> amount new = (case kw_amount kw of None \<Rightarrow> amount old
                | Some a \<Rightarrow> (case py_float rt a of Inr x \<Rightarrow> x | Inl err \<Rightarrow> amount old))
           \<and> category new = (case kw_category kw of None \<Rightarrow> category old
                | Some c \<Rightarrow> if c \<in> set CATEGORIES then c else category old)
           \<and> description new =
               (case kw_description kw of None \<Rightarrow> description old | Some d \<Rightarrow> strip d)
           \<and> date new = (case kw_date kw of None \<Rightarrow> date old | Some d \<Rightarrow> d)"
    using h(1,2,3) n(2,3,4,5,6) u by blast
next
  fix a err
  assume a: "i \<in> set (map expense_id (expenses b)) \<and> kw_amount kw = Some a \<and>
    py_float rt a = Inl err"
  from update_loop_present [of i "expenses b" rt kw] a obtain pre old post where
    h: "update_loop rt i kw (expenses b) =
          (case apply_fields rt kw old of
             Inl err \<Rightarrow> Inl err
           | Inr new \<Rightarrow> Inr (Some (new, pre @ new # post)))"
    by blast
  show "Budget_update rt b i kw = (Inl err, b)"
    using a by (simp add: Budget_update_def h apply_fields_error [of kw a rt err old])
qed


theorem update_behaviour_witness:
  "''00000000'' \<notin> set (map expense_id (expenses demo_budget))
   \<and> Budget_update demo_rt demo_budget ''00000000'' demo_kw = (Inr None, demo_budget)
   \<and> ''5e6f7a8b'' \<in> set (map expense_id (expenses demo_budget))
   \<and> kw_amount demo_kw = Some (Txt ''200.0'') \<and> py_float demo_rt (Txt ''200.0'') = Inr 200
   \<and> (\<exists>new. fst (Budget_update demo_rt demo_budget ''5e6f7a8b'' demo_kw) = Inr (Some new)
         \<and> expense_id new = ''5e6f7a8b'' \<and> amount new = 200 \<and> date new = ''2024-05-03'')"
proof -
  have h: "''00000000'' \<notin> set (map expense_id (expenses demo_budget))"
    "''5e6f7a8b'' \<in> set (map expense_id (expenses demo_budget))"
    "\<forall>a. kw_amount demo_kw = Some a \<longrightarrow> (\<exists>x. py_float demo_rt a = Inr x)"
    by (simp_all add: demo_ids demo_kw_def demo_float)
  have k: "kw_amount demo_kw = Some (Txt ''200.0'')" "kw_date demo_kw = Some ''2024-05-03''"
    by (simp_all add: demo_kw_def)
  from update_behaviour [of "''00000000''" demo_budget demo_rt demo_kw] h(1)
  have a: "Budget_update demo_rt demo_budget ''00000000'' demo_kw = (Inr None, demo_budget)"
    by blast
  from update_behaviour [of "''5e6f7a8b''" demo_budget demo_rt demo_kw] h(2,3)
  have b: "\<exists>new. fst (Budget_update demo_rt demo_budget ''5e6f7a8b'' demo_kw) = Inr (Some new)
         \<and> expense_id new = ''5e6f7a8b'' \<and> amount new = 200 \<and> date new = ''2024-05-03''"
    by (auto simp: k demo_float)
  show ?thesis using h(1,2) k(1) demo_float a b by blast
qed

text \<open>
  C7 (as amended). A category outside the fixed set never raises and never
  rejects the operation. The constructor stores \<open>Other\<close> in its place. \<open>update\<close>
  does not: it ignores the invalid category, so the call behaves exactly as
  the same call without a category and the record keeps the category it had.
\<close>

theorem invalid_category_handling:
  "cat \<notin> set CATEGORIES \<longrightarrow>
     (\<forall>a. py_float rt amt = Inr a \<longrightarrow>
        (\<exists>e. Expense_init rt u amt cat descr date_str exp_id = Inr e \<and> category e = ''Other''))
     \<and> Budget_update rt b i (kw\<lparr>kw_category := Some cat\<rparr>)
         = Budget_update rt b i (kw\<lparr>kw_category := None\<rparr>)"
proof
  assume c: "cat \<notin> set CATEGORIES"
  have af: "apply_fields rt (kw\<lparr>kw_category := Some cat\<rparr>) = apply_fields rt (kw\<lparr>kw_category := None\<rparr>)"
    using c by (auto simp: apply_fields_def Let_def fun_eq_iff split: sum.splits)
  have "update_loop rt i (kw\<lparr>kw_category := Some cat\<rparr>) es
      = update_loop rt i (kw\<lparr>kw_category := None\<rparr>) es" for es
    by (induction es) (simp_all add: af)
  then have "Budget_update rt b i (kw\<lparr>kw_category := Some cat\<rparr>)
      = Budget_update rt b i (kw\<lparr>kw_category := None\<rparr>)"
    by (simp add: Budget_update_def)
  moreover have "\<forall>a. py_float rt amt = Inr a \<longrightarrow>
        (\<exists>e. Expense_init rt u amt cat descr date_str exp_id = Inr e \<and> category e = ''Other'')"
    using c by (simp add: Expense_init_def)
  ultimately show "(\<forall>a. py_float rt amt = Inr a \<longrightarrow>
        (\<exists>e. Expense_init rt u amt cat descr date_str exp_id = Inr e \<and> category e = ''Other''))
     \<and> Budget_update rt b i (kw\<lparr>kw_category := Some cat\<rparr>)
         = Budget_update rt b i (kw\<lparr>kw_category := None\<rparr>)"
    by blast
qed

theorem invalid_category_handling_witness:
  "''Bogus'' \<notin> set CATEGORIES
   \<and> py_float demo_rt (Flt 7) = Inr 7
   \<and> (\<exists>e. Expense_init demo_rt 0 (Flt 7) ''Bogus'' ''tea'' None None = Inr e \<and> category e = ''Other'')
   \<and> Budget_update demo_rt demo_budget ''1a2b3c4d'' (demo_kw\<lparr>kw_category := Some ''Bogus''\<rparr>)
       = Budget_update demo_rt demo_budget ''1a2b3c4d'' (demo_kw\<lparr>kw_category := None\<rparr>)"
proof -
  have f: "py_float demo_rt (Flt 7) = Inr 7"
    by (simp add: py_float_def)
  show ?thesis
    using invalid_category_handling [of "''Bogus''" demo_rt "Flt 7" 0 "''tea''" None None
        demo_budget "''1a2b3c4d''" demo_kw] bogus f
    by blast
qed

text \<open>
  The claim as stated fails for \<open>update\<close>: the record keeps \<open>Food\<close>, it does not
  become \<open>Other\<close>.
\<close>

theorem update_invalid_category_counterexample:
  "''Bogus'' \<notin> set CATEGORIES
   \<and> fst (Budget_update demo_rt demo_budget ''1a2b3c4d''
        \<lparr>kw_amount = None, kw_category = Some ''Bogus'', kw_description = None, kw_date = None\<rparr>)
       = Inr (Some lunch)
   \<and> category lunch = ''Food'' \<and> category lunch \<noteq> ''Other''
   \<and> expenses (snd (Budget_update demo_rt demo_budget ''1a2b3c4d''
        \<lparr>kw_amount = None, kw_category = Some ''Bogus'', kw_description = None, kw_date = None\<rparr>))
       = [lunch, bus, groceries]"
  by (simp add: bogus Budget_update_def demo_expenses apply_fields_def Budget_save_def lunch_def)

text \<open>
  C4 (as amended). \<open>delete\<close> removes every record with the id and returns
  true exactly when the id was present; the length drops by the number of
  records with that id. When the ids of the ledger are distinct that is exactly
  one record for a present id and none otherwise. The file is rewritten exactly
  when something was removed.
\<close>

theorem delete_behaviour:
  "fst (Budget_delete rt b i) = (i \<in> set (map expense_id (expenses b)))
   \<and> expenses (snd (Budget_delete rt b i)) = filter (\<lambda>e. expense_id e \<noteq> i) (expenses b)
   \<and> length (expenses (snd (Budget_delete rt b i))) + count_list (map expense_id (expenses b)) i
       = length (expenses b)
   \<and> (distinct (map expense_id (expenses b)) \<longrightarrow>
        length (expenses (snd (Budget_delete rt b i))) + (if fst (Budget_delete rt b i) then 1 else 0)
          = length (expenses b))
   \<and> snd (Budget_delete rt b i) =
       (if fst (Budget_delete rt b i)
        then Budget_save rt (b\<lparr>expenses := filter (\<lambda>e. expense_id e \<noteq> i) (expenses b)\<rparr>)
        else b)"
proof -
  have l: "length (filter (\<lambda>e. expense_id e \<noteq> i) es) + count_list (map expense_id es) i
      = length es" for es :: "expense list"
    by (induction es) auto
  have m: "length (filter (\<lambda>e. expense_id e \<noteq> i) es) < length es
      \<longleftrightarrow> i \<in> set (map expense_id es)" for es :: "expense list"
    using l [of es] count_list_0_iff [of "map expense_id es" i] by linarith
  have d: "distinct (map expense_id es) \<Longrightarrow>
      count_list (map expense_id es) i = (if i \<in> set (map expense_id es) then 1 else 0)" for es :: "expense list"
    by (induction es) auto
  show ?thesis
  proof (cases "i \<in> set (map expense_id (expenses b))")
    case True
    then show ?thesis
      using l [of "expenses b"] d [of "expenses b"] m [of "expenses b"]
      by (auto simp: Budget_delete_def Let_def Budget_save_def)
  next
    case False
    then have f: "filter (\<lambda>e. expense_id e \<noteq> i) (expenses b) = expenses b"
      by (auto simp: filter_id_conv)
    from False show ?thesis
      using l [of "expenses b"]
      by (simp add: Budget_delete_def Let_def f)
  qed
qed

theorem delete_behaviour_witness:
  "distinct (map expense_id (expenses demo_budget))
   \<and> fst (Budget_delete demo_rt demo_budget ''5e6f7a8b'')
   \<and> length (expenses (snd (Budget_delete demo_rt demo_budget ''5e6f7a8b''))) + 1 = 3
   \<and> \<not> fst (Budget_delete demo_rt demo_budget ''00000000'')
   \<and> length (expenses (snd (Budget_delete demo_rt demo_budget ''00000000''))) = 3"
  using delete_behaviour [of demo_rt demo_budget "''5e6f7a8b''"]
    delete_behaviour [of demo_rt demo_budget "''00000000''"]
  by (simp add: demo_expenses lunch_def bus_def groceries_def Budget_save_def)

text \<open>
  The claim as stated fails on a ledger in which two records share an id: one
  call removes both.
\<close>

theorem delete_duplicates_counterexample:
  "length (expenses twins) = 3
   \<and> fst (Budget_delete demo_rt twins ''1a2b3c4d'')
   \<and> expenses (snd (Budget_delete demo_rt twins ''1a2b3c4d'')) = [bus]
   \<and> length (expenses (snd (Budget_delete demo_rt twins ''1a2b3c4d''))) = 1"
  by (simp add: twins_def Budget_delete_def Budget_save_def lunch_def bus_def)

section \<open>The invariant of the ledger\<close>

text \<open>
  C6 (as amended). In every state the program reaches by loading any file,
  by \<open>add\<close> of any constructed expense, by \<open>update\<close> and by \<open>delete\<close>, every stored
  expense has a non-empty id and a category of the fixed set. That no two
  records share an id holds as well in every state of a run that starts on no
  file or on a file whose rows carry non-empty, pairwise different ids, that
  restarts on the file the program wrote, and in which \<open>add\<close> is only given an
  expense whose id is not yet in the ledger: \<open>update\<close>, \<open>delete\<close> and such a load
  keep the ids unique, \<open>add\<close> does not look at them.
\<close>

theorem reachable_ledger_inv:
  "(reachable rt b \<longrightarrow> list_all expense_inv (expenses b))
   \<and> (reachable_unique rt b \<longrightarrow> ledger_inv (expenses b))"
proof (intro conjI impI)
  assume "reachable rt b"
  then show "list_all expense_inv (expenses b)"
  proof (induction rule: reachable.induct)
    case (start us f b)
    then show ?case by (rule Budget_init_valid)
  next
    case (added b u amt cat descr date_str exp_id e)
    have "expense_inv e"
      using added.hyps(2) by (rule Expense_init_inv)
    with added.IH show ?case
      by (simp add: Budget_add_def save_expenses)
  next
    case (updated b i kw)
    show ?case
    proof (cases "update_loop rt i kw (expenses b)")
      case (Inl err)
      with updated show ?thesis by (simp add: Budget_update_def)
    next
      case (Inr res)
      show ?thesis
      proof (cases res)
        case None
        with Inr updated show ?thesis by (simp add: Budget_update_def)
      next
        case (Some p)
        obtain r es' where p: "p = (r, es')" by (cases p)
        from update_loop_inv [of rt i kw "expenses b" r es'] Inr Some p updated.IH
        have "list_all expense_inv es'" by simp
        then show ?thesis
          using Inr Some p by (simp add: Budget_update_def save_expenses)
      qed
    qed
  next
    case (deleted b i)
    then have "list_all expense_inv (filter (\<lambda>e. expense_id e \<noteq> i) (expenses b))"
      by (simp add: list_all_iff)
    then show ?case
      by (simp add: Budget_delete_def Let_def save_expenses)
  qed
next
  assume "reachable_unique rt b"
  then have "ledger_inv (expenses b) \<and> disk_ok (disk b)"
  proof (induction rule: reachable_unique.induct)
    case (start_unique f us b)
    then show ?case
      using Budget_init_inv [of rt us f b] by simp
  next
    case (restart_unique b us b')
    then show ?case
      using Budget_init_inv [of rt us "disk b" b'] by simp
  next
    case (added_unique b u amt cat descr date_str exp_id e)
    have "expense_inv e"
      using added_unique.hyps(2) by (rule Expense_init_inv)
    with added_unique have l: "ledger_inv (expenses b @ [e])"
      by (simp add: ledger_inv_def)
    have "snd (Budget_add rt b e) = Budget_save rt (b\<lparr>expenses := expenses b @ [e]\<rparr>)"
      by (simp add: Budget_add_def)
    then show ?case
      using l save_disk_ok [of "b\<lparr>expenses := expenses b @ [e]\<rparr>" rt]
      by (simp add: save_expenses)
  next
    case (updated_unique b i kw)
    show ?case
    proof (cases "update_loop rt i kw (expenses b)")
      case (Inl err)
      with updated_unique show ?thesis by (simp add: Budget_update_def)
    next
      case (Inr res)
      show ?thesis
      proof (cases res)
        case None
        with Inr updated_unique show ?thesis by (simp add: Budget_update_def)
      next
        case (Some p)
        obtain r es' where p: "p = (r, es')" by (cases p)
        from updated_unique.IH have "list_all expense_inv (expenses b)"
          by (simp add: ledger_inv_def)
        with update_loop_inv [of rt i kw "expenses b" r es'] Inr Some p updated_unique.IH
        have l: "ledger_inv es'"
          by (simp add: ledger_inv_def)
        have "snd (Budget_update rt b i kw) = Budget_save rt (b\<lparr>expenses := es'\<rparr>)"
          using Inr Some p by (simp add: Budget_update_def)
        then show ?thesis
          using l save_disk_ok [of "b\<lparr>expenses := es'\<rparr>" rt] by (simp add: save_expenses)
      qed
    qed
  next
    case (deleted_unique b i)
    let ?es = "filter (\<lambda>e. expense_id e \<noteq> i) (expenses b)"
    from deleted_unique.IH have l: "ledger_inv ?es"
      by (auto simp: ledger_inv_def list_all_iff distinct_map_filter)
    show ?case
    proof (cases "length ?es < length (expenses b)")
      case True
      then have "snd (Budget_delete rt b i) = Budget_save rt (b\<lparr>expenses := ?es\<rparr>)"
        by (simp add: Budget_delete_def Let_def)
      then show ?thesis
        using l save_disk_ok [of "b\<lparr>expenses := ?es\<rparr>" rt] by (simp add: save_expenses)
    next
      case False
      then have "snd (Budget_delete rt b i) = b\<lparr>expenses := ?es\<rparr>"
        by (simp add: Budget_delete_def Let_def)
      then show ?thesis
        using l deleted_unique.IH by simp
    qed
  qed
  then show "ledger_inv (expenses b)" by simp
qed

text \<open>
  The run of the scenario passes through \<open>add\<close>, \<open>update\<close>, \<open>delete\<close> and a
  restart and ends with two records of different ids; a run in which \<open>add\<close> is
  given a second expense with the id of the first ends with two records of one
  id, both with a non-empty id and a category of the fixed set.
\<close>

theorem reachable_ledger_inv_witness:
  "reachable_unique demo_rt demo_run6
   \<and> expenses demo_run6 = [bus_updated, groceries]
   \<and> ledger_inv (expenses demo_run6)
   \<and> reachable demo_rt (snd (Budget_add demo_rt demo_run1 clash))
   \<and> expenses (snd (Budget_add demo_rt demo_run1 clash)) = [lunch, clash]
   \<and> list_all expense_inv (expenses (snd (Budget_add demo_rt demo_run1 clash)))"
proof -
  have i: "Budget_init demo_rt no_draws None = Inr empty_budget"
    by (simp add: Budget_init_def Budget_load_def empty_budget_def)
  have e: "expenses empty_budget = []" "expenses demo_run1 = [lunch]"
    "expenses demo_run2 = [lunch, bus]"
    by (simp_all add: empty_budget_def demo_run1_eq demo_run2_eq Budget_save_def)
  have ids: "expense_id lunch = ''1a2b3c4d''" "expense_id bus = ''5e6f7a8b''"
    "expense_id groceries = ''9c0d1e2f''"
    by (simp_all add: lunch_def bus_def groceries_def)
  have "disk_ok None"
    by (simp add: disk_ok_def)
  then have "reachable_unique demo_rt empty_budget"
    using i by (rule reachable_unique.start_unique)
  then have "reachable_unique demo_rt demo_run1"
    unfolding demo_run1_def
    by (rule reachable_unique.added_unique [OF _ construct_lunch]) (simp add: e)
  then have "reachable_unique demo_rt demo_run2"
    unfolding demo_run2_def
    by (rule reachable_unique.added_unique [OF _ construct_bus]) (simp add: e ids)
  then have "reachable_unique demo_rt demo_run3"
    unfolding demo_run3_def
    by (rule reachable_unique.added_unique [OF _ construct_groceries]) (simp add: e ids)
  then have "reachable_unique demo_rt demo_run4"
    unfolding demo_run4_def by (rule reachable_unique.updated_unique)
  then have "reachable_unique demo_rt demo_run5"
    unfolding demo_run5_def by (rule reachable_unique.deleted_unique)
  then have u: "reachable_unique demo_rt demo_run6"
    using demo_restart by (rule reachable_unique.restart_unique)
  have "reachable demo_rt empty_budget"
    using i by (rule reachable.start)
  then have "reachable demo_rt demo_run1"
    unfolding demo_run1_def by (rule reachable.added [OF _ construct_lunch])
  then have r: "reachable demo_rt (snd (Budget_add demo_rt demo_run1 clash))"
    by (rule reachable.added [OF _ construct_clash])
  have x: "expenses demo_run6 = [bus_updated, groceries]"
    "expenses (snd (Budget_add demo_rt demo_run1 clash)) = [lunch, clash]"
    by (simp_all add: demo_run6_def Budget_add_def save_expenses e)
  from reachable_ledger_inv [of demo_rt demo_run6] u
  have a: "ledger_inv (expenses demo_run6)" by blast
  from reachable_ledger_inv [of demo_rt "snd (Budget_add demo_rt demo_run1 clash)"] r
  have b: "list_all expense_inv (expenses (snd (Budget_add demo_rt demo_run1 clash)))" by blast
  from u x a r b show ?thesis by blast
qed

text \<open>
  The claim as stated fails for \<open>add\<close>, which appends without looking at the
  ids: two expenses constructed from the same random number get the same id,
  and adding the second one to a ledger that satisfies the invariant gives one
  that does not.
\<close>

theorem add_same_id_counterexample:
  "Expense_init demo_rt 0x1a2b3c4d (Flt 100) ''Food'' ''lunch'' (Some ''2024-05-01'') None
     = Inr lunch
   \<and> Expense_init demo_rt 0x1a2b3c4d (Flt 50) ''Transport'' ''bus'' (Some ''2024-05-02'') None
     = Inr clash
   \<and> ledger_inv (expenses (snd (Budget_add demo_rt empty_budget lunch)))
   \<and> expenses (snd (Budget_add demo_rt (snd (Budget_add demo_rt empty_budget lunch)) clash))
       = [lunch, clash]
   \<and> map expense_id [lunch, clash] = [''1a2b3c4d'', ''1a2b3c4d'']
   \<and> \<not> ledger_inv
          (expenses (snd (Budget_add demo_rt (snd (Budget_add demo_rt empty_budget lunch)) clash)))"
  by (simp add: construct_lunch construct_clash Budget_add_def Budget_save_def empty_budget_def
      ledger_inv_def expense_inv_def lunch_def clash_def bus_def CATEGORIES_def)

section \<open>Saving and reloading\<close>

text \<open>
  C1 (as amended). For every ledger whose records have a non-empty id and a
  category of the fixed set, and no text longer than the 131072 characters
  the \<open>csv\<close> reader accepts in a cell, writing the file with \<open>_save\<close> and loading
  it into a new ledger succeeds and rebuilds the records one by one, in the
  same order: each with the same id, amount and category, with the description
  stripped of surrounding whitespace, and with the same date unless the stored
  date is empty, which becomes today's date. So a record whose description is
  stripped (as the constructor and \<open>update\<close> leave it) and whose date is not
  empty comes back the same in every field. When a record has a longer text
  the load raises the error of the reader.
\<close>

theorem save_load_roundtrip:
  "(list_all expense_inv (expenses b) \<and> list_all fits (expenses b) \<longrightarrow>
      Budget_init rt us (disk (Budget_save rt b))
        = Inr \<lparr>expenses = map (reloaded rt) (expenses b), disk = disk (Budget_save rt b)\<rparr>)
   \<and> expense_id (reloaded rt e) = expense_id e
   \<and> amount (reloaded rt e) = amount e
   \<and> category (reloaded rt e) = category e
   \<and> description (reloaded rt e) = strip (description e)
   \<and> date (reloaded rt e) = (if date e = [] then today rt else date e)
   \<and> (strip (description e) = description e \<and> date e \<noteq> [] \<longrightarrow> reloaded rt e = e)
   \<and> (\<not> list_all fits (expenses b) \<longrightarrow>
        Budget_init rt us (disk (Budget_save rt b)) = Inl CsvError)"
  by (simp add: Budget_init_def Budget_load_def Budget_save_def load_rows_saved load_rows_unfit
      reloaded_fields reloaded_same)

theorem save_load_roundtrip_witness:
  "list_all expense_inv (expenses demo_budget) \<and> list_all fits (expenses demo_budget)
   \<and> Budget_init demo_rt no_draws (disk (Budget_save demo_rt demo_budget))
       = Inr \<lparr>expenses = [lunch, bus, groceries], disk = disk (Budget_save demo_rt demo_budget)\<rparr>
   \<and> strip (description lunch) = description lunch \<and> date lunch \<noteq> []
   \<and> reloaded demo_rt lunch = lunch
   \<and> \<not> list_all fits (expenses \<lparr>expenses = [long_note], disk = None\<rparr>)
   \<and> Budget_init demo_rt no_draws
        (disk (Budget_save demo_rt \<lparr>expenses = [long_note], disk = None\<rparr>)) = Inl CsvError"
proof -
  have l: "strip (description lunch) = description lunch" "date lunch \<noteq> []"
    by (simp_all add: lunch_def strip_words)
  have n: "\<not> list_all fits (expenses \<lparr>expenses = [long_note], disk = None\<rparr>)"
    by (simp add: fits_def field_limit_def long_note_def)
  show ?thesis
    using save_load_roundtrip [of demo_budget demo_rt no_draws lunch]
      save_load_roundtrip [of "\<lparr>expenses = [long_note], disk = None\<rparr>" demo_rt no_draws lunch]
      demo_valid demo_fits demo_reloaded l n
    by (simp add: demo_expenses)
qed

text \<open>
  The claim as stated fails on a ledger that satisfies the invariant of the
  specification but holds a record with an empty date, as \<open>update\<close> with
  \<open>date=""\<close> leaves it: the reloaded record carries today's date.
\<close>

theorem reload_empty_date_counterexample:
  "ledger_inv (expenses undated)
   \<and> map date (expenses undated) = [[]]
   \<and> Budget_init demo_rt no_draws (disk (Budget_save demo_rt undated))
       = Inr \<lparr>expenses = [lunch\<lparr>date := ''2024-06-15''\<rparr>],
              disk = disk (Budget_save demo_rt undated)\<rparr>
   \<and> map date [lunch\<lparr>date := ''2024-06-15''\<rparr>] = [''2024-06-15'']"
  by (simp add: undated_expenses ledger_inv_def expense_inv_def Budget_init_def Budget_load_def
      Budget_save_def Expense_from_dict_def writerow_def Expense_to_dict_def Expense_init_def
      py_float_def lunch_def demo_rt_def CATEGORIES_def strip_def is_space_def over_limit_def
      field_limit_def)

end
